theory Spec2Isabelle
  imports Main "HOL-Library.Multiset"
begin

section \<open>Data model\<close>

text \<open>
  The request record of \<^verbatim>\<open>../types\<close> as the two components read it. \<^verbatim>\<open>dueDate\<close> is
  passed to \<^verbatim>\<open>new Date(...)\<close> and assigned to a \<^verbatim>\<open>timestamp: string\<close> without a
  non-null assertion, so it is a plain string; \<^verbatim>\<open>approvedDate\<close>, \<^verbatim>\<open>returnedDate\<close>,
  \<^verbatim>\<open>approvedBy\<close> and \<^verbatim>\<open>adminNotes\<close> are tested for presence and are optional.
\<close>

datatype Status = Pending | Approved | Returned | Rejected | Overdue

datatype Role = Admin | Student

record BorrowRequest =
  rid :: string
  studentId :: string
  studentName :: string
  componentName :: string
  quantity :: int
  status :: Status
  requestDate :: string
  approvedDate :: "string option"
  approvedBy :: "string option"
  returnedDate :: "string option"
  dueDate :: string
  adminNotes :: "string option"

record User =
  uid :: string
  role :: Role

datatype Priority = Low | Medium | High

datatype NotificationType = N_checkout | N_return | N_approval | N_rejection | N_reminder

record Notification =
  n_id :: string
  n_type :: NotificationType
  n_title :: string
  n_message :: string
  n_timestamp :: string
  n_read :: bool
  n_requestId :: "string option"
  n_priority :: Priority

datatype ActivityType = A_request | A_approval | A_checkout | A_return | A_rejection

record ActivityItem =
  a_id :: string
  a_type :: ActivityType
  a_title :: string
  a_description :: string
  a_timestamp :: string
  a_user :: string
  a_component :: string
  a_status :: string
  a_priority :: Priority

datatype Filter = F_all | F_requests | F_approvals | F_returns

text \<open>
  The platform's \<^verbatim>\<open>Date\<close>, taken as a parameter: \<open>getTime s\<close> is
  \<^verbatim>\<open>new Date(s).getTime()\<close> in milliseconds, \<open>None\<close> standing for \<^verbatim>\<open>NaN\<close> (an invalid
  date); \<open>toLocaleDateString s\<close> is \<^verbatim>\<open>new Date(s).toLocaleDateString()\<close>; \<open>toISOString t\<close>
  renders the instant \<open>t\<close>; \<open>minusOneDay t\<close> is the instant after
  \<^verbatim>\<open>d.setDate(d.getDate() - 1)\<close> (local calendar arithmetic). The clock \<^verbatim>\<open>new Date()\<close>
  is the argument \<open>now\<close> of the functions below, read once for one run.
\<close>

record DateEnv =
  getTime :: "string \<Rightarrow> int option"
  toLocaleDateString :: "string \<Rightarrow> string"
  toISOString :: "int \<Rightarrow> string"
  minusOneDay :: "int \<Rightarrow> int"

section \<open>JavaScript primitives\<close>

text \<open>Truthiness of an optional string: \<^verbatim>\<open>undefined\<close> and \<^verbatim>\<open>""\<close> are falsy.\<close>

fun truthy :: "string option \<Rightarrow> bool" where
  "truthy None = False"
| "truthy (Some s) = (s \<noteq> [])"

text \<open>\<^verbatim>\<open>a || d\<close> on an optional string.\<close>

fun orElse :: "string option \<Rightarrow> string \<Rightarrow> string" where
  "orElse None d = d"
| "orElse (Some s) d = (if s = [] then d else s)"

text \<open>
  A value already tested truthy (\<^verbatim>\<open>r.approvedDate!\<close>, or narrowed by the enclosing
  \<^verbatim>\<open>if\<close>); the \<open>None\<close> case is never reached.
\<close>

fun nonNull :: "string option \<Rightarrow> string" where
  "nonNull None = []"
| "nonNull (Some s) = s"

text \<open>Numbers that may be \<^verbatim>\<open>NaN\<close>: every comparison with \<^verbatim>\<open>NaN\<close> is false.\<close>

fun numLess :: "int option \<Rightarrow> int option \<Rightarrow> bool" where
  "numLess (Some a) (Some b) = (a < b)"
| "numLess _ _ = False"

fun numSub :: "int option \<Rightarrow> int option \<Rightarrow> int option" where
  "numSub (Some a) (Some b) = Some (a - b)"
| "numSub _ _ = None"

text \<open>Decimal rendering of an integer in a template string.\<close>

fun digitsOf :: "nat \<Rightarrow> string" where
  "digitsOf n =
     (if n < 10 then [''0123456789'' ! n]
      else digitsOf (n div 10) @ [''0123456789'' ! (n mod 10)])"

definition numToString :: "int \<Rightarrow> string" where
  "numToString i = (if i < 0 then CHR ''-'' # digitsOf (nat (- i)) else digitsOf (nat i))"

text \<open>
  \<^verbatim>\<open>Array.prototype.sort(compareFn)\<close>: a stable sort; a comparator result of \<^verbatim>\<open>NaN\<close>
  counts as \<open>0\<close>. The model is the stable insertion sort. With a consistent comparator
  every stable sort gives the same list, and \<open>sortBy\<close> is the platform's sort. With an
  inconsistent comparator, which here takes a timestamp that is not a date, ECMAScript
  leaves the order to the implementation, and an engine may leave another order than
  \<open>sortBy\<close> does: what is proved below of the order of a sorted list is proved for
  valid dates only.
\<close>

definition sortCompare :: "('a \<Rightarrow> 'a \<Rightarrow> int option) \<Rightarrow> 'a \<Rightarrow> 'a \<Rightarrow> int" where
  "sortCompare cmp x y = (case cmp x y of None \<Rightarrow> 0 | Some v \<Rightarrow> v)"

fun insertBy :: "('a \<Rightarrow> 'a \<Rightarrow> int option) \<Rightarrow> 'a \<Rightarrow> 'a list \<Rightarrow> 'a list" where
  "insertBy cmp x [] = [x]"
| "insertBy cmp x (y # ys) =
     (if sortCompare cmp x y \<le> 0 then x # y # ys else y # insertBy cmp x ys)"

definition sortBy :: "('a \<Rightarrow> 'a \<Rightarrow> int option) \<Rightarrow> 'a list \<Rightarrow> 'a list" where
  "sortBy cmp xs = foldr (insertBy cmp) xs []"

text \<open>
  \<^verbatim>\<open>xs.slice(0, e)\<close> for an integer \<open>e\<close>: a negative end counts from the end of the
  array.
\<close>

definition slice0 :: "int \<Rightarrow> 'a list \<Rightarrow> 'a list" where
  "slice0 e xs = (if e < 0 then take (nat (int (length xs) + e)) xs else take (nat e) xs)"

section \<open>NotificationCenter\<close>

definition pendingNotification :: "BorrowRequest \<Rightarrow> Notification" where
  "pendingNotification r =
     \<lparr> n_id = ''pending_'' @ rid r,
       n_type = N_approval,
       n_title = ''New Component Request'',
       n_message = studentName r @ '' requested '' @ componentName r @ '' ('' @
                   numToString (quantity r) @ '' units)'',
       n_timestamp = requestDate r,
       n_read = False,
       n_requestId = Some (rid r),
       n_priority = High \<rparr>"

definition overdueNotification :: "DateEnv \<Rightarrow> BorrowRequest \<Rightarrow> Notification" where
  "overdueNotification D r =
     \<lparr> n_id = ''overdue_'' @ rid r,
       n_type = N_reminder,
       n_title = ''Overdue Component'',
       n_message = studentName r @ '' has overdue '' @ componentName r @ '' (Due: '' @
                   toLocaleDateString D (dueDate r) @ '')'',
       n_timestamp = dueDate r,
       n_read = False,
       n_requestId = Some (rid r),
       n_priority = High \<rparr>"

definition checkoutNotification :: "BorrowRequest \<Rightarrow> Notification" where
  "checkoutNotification r =
     \<lparr> n_id = ''checkout_'' @ rid r,
       n_type = N_checkout,
       n_title = ''Component Checked Out'',
       n_message = studentName r @ '' checked out '' @ componentName r @ '' ('' @
                   numToString (quantity r) @ '' units)'',
       n_timestamp = nonNull (approvedDate r),
       n_read = False,
       n_requestId = Some (rid r),
       n_priority = Medium \<rparr>"

definition returnNotification :: "BorrowRequest \<Rightarrow> Notification" where
  "returnNotification r =
     \<lparr> n_id = ''return_'' @ rid r,
       n_type = N_return,
       n_title = ''Component Returned'',
       n_message = studentName r @ '' returned '' @ componentName r @ '' ('' @
                   numToString (quantity r) @ '' units)'',
       n_timestamp = nonNull (returnedDate r),
       n_read = False,
       n_requestId = Some (rid r),
       n_priority = Medium \<rparr>"

definition approvedNotification :: "BorrowRequest \<Rightarrow> Notification" where
  "approvedNotification r =
     \<lparr> n_id = ''approved_'' @ rid r,
       n_type = N_approval,
       n_title = ''Request Approved!'',
       n_message = ''Your request for '' @ componentName r @ '' has been approved. '' @
                   orElse (adminNotes r) ''Please collect from the lab.'',
       n_timestamp = nonNull (approvedDate r),
       n_read = False,
       n_requestId = Some (rid r),
       n_priority = High \<rparr>"

definition rejectedNotification :: "BorrowRequest \<Rightarrow> Notification" where
  "rejectedNotification r =
     \<lparr> n_id = ''rejected_'' @ rid r,
       n_type = N_rejection,
       n_title = ''Request Rejected'',
       n_message = ''Your request for '' @ componentName r @ '' was rejected. '' @
                   orElse (adminNotes r) ''Please contact admin for details.'',
       n_timestamp = requestDate r,
       n_read = False,
       n_requestId = Some (rid r),
       n_priority = Medium \<rparr>"

definition reminderNotification :: "DateEnv \<Rightarrow> int \<Rightarrow> BorrowRequest \<Rightarrow> int \<Rightarrow> Notification" where
  "reminderNotification D now r daysDiff =
     \<lparr> n_id = ''reminder_'' @ rid r,
       n_type = N_reminder,
       n_title = ''Return Reminder'',
       n_message = componentName r @ '' is due '' @
                   (if daysDiff = 0 then ''today''
                    else ''in '' @ numToString daysDiff @ '' day'' @
                         (if daysDiff > 1 then ''s'' else '''')),
       n_timestamp = toISOString D now,
       n_read = False,
       n_requestId = Some (rid r),
       n_priority = (if daysDiff = 0 then High else Medium) \<rparr>"

text \<open>The filter of \<^verbatim>\<open>overdueRequests\<close>: \<^verbatim>\<open>dueDate < today\<close> compares the two instants.\<close>

definition isOverdue :: "DateEnv \<Rightarrow> int \<Rightarrow> BorrowRequest \<Rightarrow> bool" where
  "isOverdue D now r =
     (if status r \<noteq> Approved then False
      else numLess (getTime D (dueDate r)) (Some now))"

definition isRecentCheckout :: "DateEnv \<Rightarrow> int \<Rightarrow> BorrowRequest \<Rightarrow> bool" where
  "isRecentCheckout D now r =
     (if status r \<noteq> Approved \<or> \<not> truthy (approvedDate r) then False
      else numLess (Some (minusOneDay D now)) (getTime D (nonNull (approvedDate r))))"

definition isRecentReturn :: "DateEnv \<Rightarrow> int \<Rightarrow> BorrowRequest \<Rightarrow> bool" where
  "isRecentReturn D now r =
     (if status r \<noteq> Returned \<or> \<not> truthy (returnedDate r) then False
      else numLess (Some (minusOneDay D now)) (getTime D (nonNull (returnedDate r))))"

definition adminNotifications :: "DateEnv \<Rightarrow> int \<Rightarrow> BorrowRequest list \<Rightarrow> Notification list" where
  "adminNotifications D now requests =
     map pendingNotification (filter (\<lambda>r. status r = Pending) requests) @
     map (overdueNotification D) (filter (isOverdue D now) requests) @
     map checkoutNotification (filter (isRecentCheckout D now) requests) @
     map returnNotification (filter (isRecentReturn D now) requests)"

text \<open>
  \<^verbatim>\<open>Math.ceil((dueDate.getTime() - today.getTime()) / (1000 * 3600 * 24))\<close>; \<open>None\<close> is
  \<^verbatim>\<open>NaN\<close>. The ceiling of \<open>a / b\<close> is \<open>- ((- a) div b)\<close> for the flooring \<open>div\<close> of HOL.
\<close>

definition daysDiffOf :: "DateEnv \<Rightarrow> int \<Rightarrow> BorrowRequest \<Rightarrow> int option" where
  "daysDiffOf D now r =
     (case getTime D (dueDate r) of
        None \<Rightarrow> None
      | Some due \<Rightarrow> Some (- ((now - due) div (1000 * 3600 * 24))))"

definition studentNotificationsOf :: "DateEnv \<Rightarrow> int \<Rightarrow> BorrowRequest \<Rightarrow> Notification list" where
  "studentNotificationsOf D now r =
     (if status r = Approved \<and> truthy (approvedDate r) then [approvedNotification r] else []) @
     (if status r = Rejected then [rejectedNotification r] else []) @
     (if status r = Approved then
        (case daysDiffOf D now r of
           None \<Rightarrow> []
         | Some daysDiff \<Rightarrow>
             if daysDiff \<le> 2 \<and> daysDiff \<ge> 0 then [reminderNotification D now r daysDiff] else [])
      else [])"

definition studentNotifications ::
  "DateEnv \<Rightarrow> int \<Rightarrow> User \<Rightarrow> BorrowRequest list \<Rightarrow> Notification list" where
  "studentNotifications D now u requests =
     concat (map (studentNotificationsOf D now) (filter (\<lambda>r. studentId r = uid u) requests))"

fun priorityOrder :: "Priority \<Rightarrow> int" where
  "priorityOrder High = 3"
| "priorityOrder Medium = 2"
| "priorityOrder Low = 1"

definition notificationCompare :: "DateEnv \<Rightarrow> Notification \<Rightarrow> Notification \<Rightarrow> int option" where
  "notificationCompare D a b =
     (if priorityOrder (n_priority a) \<noteq> priorityOrder (n_priority b)
      then Some (priorityOrder (n_priority b) - priorityOrder (n_priority a))
      else numSub (getTime D (n_timestamp b)) (getTime D (n_timestamp a)))"

text \<open>The list \<^verbatim>\<open>userNotifications\<close> after the sort, before \<^verbatim>\<open>slice(0, 20)\<close>.\<close>

definition userNotifications :: "DateEnv \<Rightarrow> User \<Rightarrow> BorrowRequest list \<Rightarrow> int \<Rightarrow> Notification list" where
  "userNotifications D u requests now =
     sortBy (notificationCompare D)
       (if role u = Admin then adminNotifications D now requests
        else studentNotifications D now u requests)"

text \<open>
  \<open>loadNotifications\<close> on the component's state, the list \<open>prev\<close>: without a current
  user it returns before any \<^verbatim>\<open>setNotifications\<close>, and the state stays as it was.
\<close>

definition loadNotifications ::
  "DateEnv \<Rightarrow> User option \<Rightarrow> BorrowRequest list \<Rightarrow> int \<Rightarrow> Notification list \<Rightarrow> Notification list" where
  "loadNotifications D currentUser requests now prev =
     (case currentUser of
        None \<Rightarrow> prev
      | Some u \<Rightarrow> take 20 (userNotifications D u requests now))"

definition markAsRead :: "string \<Rightarrow> Notification list \<Rightarrow> Notification list" where
  "markAsRead notificationId prev =
     map (\<lambda>n. if n_id n = notificationId then n\<lparr>n_read := True\<rparr> else n) prev"

definition markAllAsRead :: "Notification list \<Rightarrow> Notification list" where
  "markAllAsRead prev = map (\<lambda>n. n\<lparr>n_read := True\<rparr>) prev"

text \<open>The state \<^verbatim>\<open>useState<Notification[]>([])\<close> starts from.\<close>

definition initialNotifications :: "Notification list" where
  "initialNotifications = []"

text \<open>
  The timer: one \<open>loadNotifications\<close> per tick, each with the requests in storage and the
  clock at that tick. The callback is the closure of the first render, so the current
  user is the same at every tick.
\<close>

fun ticks ::
  "DateEnv \<Rightarrow> User option \<Rightarrow> (BorrowRequest list \<times> int) list \<Rightarrow> Notification list \<Rightarrow> Notification list" where
  "ticks D currentUser [] st = st"
| "ticks D currentUser ((requests, now) # rest) st =
     ticks D currentUser rest (loadNotifications D currentUser requests now st)"

section \<open>ActivityFeed\<close>

definition requestItem :: "BorrowRequest \<Rightarrow> ActivityItem" where
  "requestItem r =
     \<lparr> a_id = ''request_'' @ rid r,
       a_type = A_request,
       a_title = ''Component Request Submitted'',
       a_description = studentName r @ '' requested '' @ componentName r @ '' ('' @
                       numToString (quantity r) @ '' units)'',
       a_timestamp = requestDate r,
       a_user = studentName r,
       a_component = componentName r,
       a_status = ''pending'',
       a_priority = Medium \<rparr>"

definition approvalItem :: "BorrowRequest \<Rightarrow> ActivityItem" where
  "approvalItem r =
     \<lparr> a_id = ''approval_'' @ rid r,
       a_type = A_approval,
       a_title = ''Request Approved'',
       a_description = componentName r @ '' request approved for '' @ studentName r,
       a_timestamp = nonNull (approvedDate r),
       a_user = orElse (approvedBy r) ''Admin'',
       a_component = componentName r,
       a_status = ''approved'',
       a_priority = High \<rparr>"

definition checkoutItem :: "BorrowRequest \<Rightarrow> ActivityItem" where
  "checkoutItem r =
     \<lparr> a_id = ''checkout_'' @ rid r,
       a_type = A_checkout,
       a_title = ''Component Checked Out'',
       a_description = studentName r @ '' checked out '' @ componentName r @ '' ('' @
                       numToString (quantity r) @ '' units)'',
       a_timestamp = nonNull (approvedDate r),
       a_user = studentName r,
       a_component = componentName r,
       a_status = ''approved'',
       a_priority = Medium \<rparr>"

definition returnItem :: "BorrowRequest \<Rightarrow> ActivityItem" where
  "returnItem r =
     \<lparr> a_id = ''return_'' @ rid r,
       a_type = A_return,
       a_title = ''Component Returned'',
       a_description = studentName r @ '' returned '' @ componentName r @ '' ('' @
                       numToString (quantity r) @ '' units)'',
       a_timestamp = nonNull (returnedDate r),
       a_user = studentName r,
       a_component = componentName r,
       a_status = ''returned'',
       a_priority = Medium \<rparr>"

definition rejectionItem :: "BorrowRequest \<Rightarrow> ActivityItem" where
  "rejectionItem r =
     \<lparr> a_id = ''rejection_'' @ rid r,
       a_type = A_rejection,
       a_title = ''Request Rejected'',
       a_description = componentName r @ '' request rejected for '' @ studentName r,
       a_timestamp = requestDate r,
       a_user = ''Admin'',
       a_component = componentName r,
       a_status = ''rejected'',
       a_priority = Low \<rparr>"

text \<open>The items one pass of \<^verbatim>\<open>requests.forEach\<close> pushes, in the order it pushes them.\<close>

definition activityItemsOf :: "BorrowRequest \<Rightarrow> ActivityItem list" where
  "activityItemsOf r =
     [requestItem r] @
     (if status r = Approved \<and> truthy (approvedDate r) then [approvalItem r, checkoutItem r] else []) @
     (if status r = Returned \<and> truthy (returnedDate r) then [returnItem r] else []) @
     (if status r = Rejected then [rejectionItem r] else [])"

definition activityCompare :: "DateEnv \<Rightarrow> ActivityItem \<Rightarrow> ActivityItem \<Rightarrow> int option" where
  "activityCompare D a b = numSub (getTime D (a_timestamp b)) (getTime D (a_timestamp a))"

text \<open>The list \<^verbatim>\<open>activityItems\<close> after the sort.\<close>

definition activityItems :: "DateEnv \<Rightarrow> BorrowRequest list \<Rightarrow> ActivityItem list" where
  "activityItems D requests = sortBy (activityCompare D) (concat (map activityItemsOf requests))"

definition matchesFilter :: "Filter \<Rightarrow> ActivityItem \<Rightarrow> bool" where
  "matchesFilter flt activity =
     (case flt of
        F_requests \<Rightarrow> a_type activity = A_request
      | F_approvals \<Rightarrow> a_type activity = A_approval \<or> a_type activity = A_checkout
      | F_returns \<Rightarrow> a_type activity = A_return
      | F_all \<Rightarrow> True)"

definition filteredActivities :: "Filter \<Rightarrow> ActivityItem list \<Rightarrow> ActivityItem list" where
  "filteredActivities flt items =
     (if flt \<noteq> F_all then filter (matchesFilter flt) items else items)"

text \<open>The component's state: the list shown and the \<^verbatim>\<open>loading\<close> flag.\<close>

record FeedState =
  activities :: "ActivityItem list"
  loading :: bool

definition loadActivities ::
  "DateEnv \<Rightarrow> BorrowRequest list \<Rightarrow> Filter \<Rightarrow> int \<Rightarrow> FeedState \<Rightarrow> FeedState" where
  "loadActivities D requests flt maxItems st =
     st\<lparr> activities := slice0 maxItems (filteredActivities flt (activityItems D requests)),
         loading := False \<rparr>"

text \<open>
  The component around \<open>loadActivities\<close>. The selected filter is state of its own,
  \<^verbatim>\<open>useState('all')\<close>; a filter button calls \<^verbatim>\<open>setFilter(key)\<close>, which stores the selection
  and renders again. \<open>loadActivities\<close> is called from the mount effect alone (its
  dependency list is empty): once at mount and then by the timer, each time as the
  function of the first render, whose \<^verbatim>\<open>filter\<close> is the initial one and whose
  \<^verbatim>\<open>maxItems\<close> is the first render's. \<open>Load requests\<close> is one such call, with the
  requests in storage at that time.
\<close>

definition initialFilter :: Filter where
  "initialFilter = F_all"

record FeedComponent =
  feed :: FeedState
  selectedFilter :: Filter

definition initialFeed :: FeedComponent where
  "initialFeed = \<lparr> feed = \<lparr> activities = [], loading = True \<rparr>, selectedFilter = initialFilter \<rparr>"

datatype FeedEvent = Load "BorrowRequest list" | SetFilter Filter

fun feedStep :: "DateEnv \<Rightarrow> int \<Rightarrow> FeedComponent \<Rightarrow> FeedEvent \<Rightarrow> FeedComponent" where
  "feedStep D maxItems c (Load requests) =
     c\<lparr> feed := loadActivities D requests initialFilter maxItems (feed c) \<rparr>"
| "feedStep D maxItems c (SetFilter key) = c\<lparr> selectedFilter := key \<rparr>"

definition feedRun :: "DateEnv \<Rightarrow> int \<Rightarrow> FeedEvent list \<Rightarrow> FeedComponent" where
  "feedRun D maxItems events = foldl (feedStep D maxItems) initialFeed events"

section \<open>Properties stated over the model\<close>


text \<open>\<^verbatim>\<open>a >= b\<close> on numbers that may be \<^verbatim>\<open>NaN\<close>.\<close>

fun numGeq :: "int option \<Rightarrow> int option \<Rightarrow> bool" where
  "numGeq (Some a) (Some b) = (a \<ge> b)"
| "numGeq _ _ = False"

text \<open>
  The order two neighbours of a notification list are to be in: a higher priority rank
  first, or the same rank and a timestamp that is not earlier.
\<close>

definition inOrder :: "DateEnv \<Rightarrow> Notification \<Rightarrow> Notification \<Rightarrow> bool" where
  "inOrder D x y =
     (priorityOrder (n_priority x) > priorityOrder (n_priority y) \<or>
      (priorityOrder (n_priority x) = priorityOrder (n_priority y) \<and>
       numGeq (getTime D (n_timestamp x)) (getTime D (n_timestamp y))))"

text \<open>A reminder notification linked to the request with identifier \<open>i\<close>.\<close>

definition isReminderFor :: "string \<Rightarrow> Notification \<Rightarrow> bool" where
  "isReminderFor i n = (n_type n = N_reminder \<and> n_requestId n = Some i)"



text \<open>Every field of a notification but \<open>n_read\<close>.\<close>

definition otherFields ::
  "Notification \<Rightarrow> string \<times> NotificationType \<times> string \<times> string \<times> string \<times> string option \<times> Priority" where
  "otherFields n =
     (n_id n, n_type n, n_title n, n_message n, n_timestamp n, n_requestId n, n_priority n)"

text \<open>
  Overdue at day granularity, in the spec's words: the whole-day difference between the
  due date and now (the \<^verbatim>\<open>daysDiff\<close> of the student path) is negative.
\<close>

definition overdueByWholeDays :: "DateEnv \<Rightarrow> int \<Rightarrow> BorrowRequest \<Rightarrow> bool" where
  "overdueByWholeDays D now r =
     (case daysDiffOf D now r of None \<Rightarrow> False | Some d \<Rightarrow> d < 0)"

section \<open>Example data\<close>

text \<open>
  The platform's \<^verbatim>\<open>Date\<close> on the strings of the examples (UTC); any other string is an
  invalid date.
\<close>

definition exampleDate :: DateEnv where
  "exampleDate =
     \<lparr> getTime = (\<lambda>s.
         if s = ''2024-01-01T10:00:00Z'' then Some 1704103200000
         else if s = ''2024-01-02T09:00:00Z'' then Some 1704186000000
         else if s = ''2024-01-05T10:00:00Z'' then Some 1704448800000
         else if s = ''2024-01-05T11:00:00Z'' then Some 1704452400000
         else if s = ''2024-01-05T12:00:00.000Z'' then Some 1704456000000
         else None),
       toLocaleDateString = (\<lambda>s. take 10 s),
       toISOString = (\<lambda>t. if t = 1704456000000 then ''2024-01-05T12:00:00.000Z'' else []),
       minusOneDay = (\<lambda>t. t - 86400000) \<rparr>"

text \<open>Noon of 5 January 2024, UTC.\<close>

definition exampleNow :: int where
  "exampleNow = 1704456000000"

definition exampleAdmin :: User where
  "exampleAdmin = \<lparr> uid = ''admin1'', role = Admin \<rparr>"

definition exampleStudent :: User where
  "exampleStudent = \<lparr> uid = ''s1'', role = Student \<rparr>"

text \<open>The pending request of the spec's scenario.\<close>

definition requestR1 :: BorrowRequest where
  "requestR1 =
     \<lparr> rid = ''r1'', studentId = ''s1'', studentName = ''Alice'',
       componentName = ''Oscilloscope'', quantity = 1, status = Pending,
       requestDate = ''2024-01-01T10:00:00Z'', approvedDate = None, approvedBy = None,
       returnedDate = None, dueDate = ''2024-01-05T10:00:00Z'', adminNotes = None \<rparr>"

text \<open>An approved request, due two hours before \<open>exampleNow\<close>.\<close>

definition requestR2 :: BorrowRequest where
  "requestR2 =
     \<lparr> rid = ''r2'', studentId = ''s1'', studentName = ''Alice'',
       componentName = ''Multimeter'', quantity = 2, status = Approved,
       requestDate = ''2024-01-01T10:00:00Z'',
       approvedDate = Some ''2024-01-02T09:00:00Z'', approvedBy = Some ''Admin'',
       returnedDate = None, dueDate = ''2024-01-05T10:00:00Z'', adminNotes = None \<rparr>"

text \<open>A pending request whose request date is not a date.\<close>

definition requestR3 :: BorrowRequest where
  "requestR3 =
     \<lparr> rid = ''r3'', studentId = ''s2'', studentName = ''Bob'',
       componentName = ''Breadboard'', quantity = 3, status = Pending,
       requestDate = ''soon'', approvedDate = None, approvedBy = None,
       returnedDate = None, dueDate = ''2024-01-05T10:00:00Z'', adminNotes = None \<rparr>"

text \<open>A request returned an hour before \<open>exampleNow\<close>.\<close>

definition requestR4 :: BorrowRequest where
  "requestR4 =
     \<lparr> rid = ''r4'', studentId = ''s2'', studentName = ''Bob'',
       componentName = ''Soldering Iron'', quantity = 1, status = Returned,
       requestDate = ''2024-01-01T10:00:00Z'',
       approvedDate = Some ''2024-01-02T09:00:00Z'', approvedBy = None,
       returnedDate = Some ''2024-01-05T11:00:00Z'', dueDate = ''2024-01-05T10:00:00Z'',
       adminNotes = None \<rparr>"

text \<open>The approved request \<open>requestR2\<close> under another identifier.\<close>

definition approvedRequest :: "string \<Rightarrow> BorrowRequest" where
  "approvedRequest i = requestR2\<lparr> rid := i \<rparr>"

text \<open>An approved request whose approved date is present and empty.\<close>

definition requestR9 :: BorrowRequest where
  "requestR9 = requestR2\<lparr> rid := ''r9'', approvedDate := Some [] \<rparr>"

definition exampleList :: "Notification list" where
  "exampleList = [pendingNotification requestR1, pendingNotification requestR3]"

definition exampleFeed :: FeedState where
  "exampleFeed = \<lparr> activities = [], loading = True \<rparr>"

section \<open>Sorting: permutation, order, stability\<close>

declare digitsOf.simps [simp del]

lemma mset_insertBy: "mset (insertBy cmp x ys) = add_mset x (mset ys)"
  by (induction ys) auto

lemma mset_sortBy: "mset (sortBy cmp xs) = mset xs"
  by (induction xs) (auto simp: sortBy_def mset_insertBy)

lemma set_sortBy: "set (sortBy cmp xs) = set xs"
  using mset_sortBy [of cmp xs] by (metis set_mset_mset)

lemma length_sortBy: "length (sortBy cmp xs) = length xs"
  using mset_sortBy [of cmp xs] by (metis size_mset)

lemma mset_filter_sortBy: "mset (filter P (sortBy cmp xs)) = mset (filter P xs)"
  by (simp add: mset_sortBy)

lemma length_filter_sortBy: "length (filter P (sortBy cmp xs)) = length (filter P xs)"
  using mset_filter_sortBy [of P cmp xs] by (metis size_mset)

lemma set_insertBy: "set (insertBy cmp x ys) = insert x (set ys)"
  by (induction ys) auto

lemma sorted_wrt_insertBy:
  assumes "sorted_wrt R ys"
    and "\<And>y. y \<in> set ys \<Longrightarrow> sortCompare cmp x y \<le> 0 \<Longrightarrow> R x y"
    and "\<And>y. y \<in> set ys \<Longrightarrow> \<not> sortCompare cmp x y \<le> 0 \<Longrightarrow> R y x"
    and "\<And>y z. y \<in> set ys \<Longrightarrow> z \<in> set ys \<Longrightarrow> R x y \<Longrightarrow> R y z \<Longrightarrow> R x z"
  shows "sorted_wrt R (insertBy cmp x ys)"
  using assms
proof (induction ys)
  case Nil
  show ?case by simp
next
  case (Cons y ys)
  have sorted_ys: "sorted_wrt R ys" and y_first: "\<And>z. z \<in> set ys \<Longrightarrow> R y z"
    using Cons.prems(1) by simp_all
  show ?case
  proof (cases "sortCompare cmp x y \<le> 0")
    case True
    have xy: "R x y" by (rule Cons.prems(2)) (simp_all add: True)
    have "R x z" if "z \<in> set ys" for z
      by (rule Cons.prems(4) [of y z]) (simp_all add: that xy y_first)
    with True xy Cons.prems(1) show ?thesis by simp
  next
    case False
    have yx: "R y x" by (rule Cons.prems(3)) (simp_all add: False)
    have "sorted_wrt R (insertBy cmp x ys)"
    proof (rule Cons.IH [OF sorted_ys])
      fix z assume "z \<in> set ys" "sortCompare cmp x z \<le> 0"
      then show "R x z" by (intro Cons.prems(2)) simp_all
    next
      fix z assume "z \<in> set ys" "\<not> sortCompare cmp x z \<le> 0"
      then show "R z x" by (intro Cons.prems(3)) simp_all
    next
      fix z w assume "z \<in> set ys" "w \<in> set ys" "R x z" "R z w"
      then show "R x w" by (intro Cons.prems(4) [of z w]) simp_all
    qed
    with False yx y_first show ?thesis by (simp add: set_insertBy)
  qed
qed

lemma sorted_wrt_sortBy:
  assumes "\<And>x y. x \<in> set xs \<Longrightarrow> y \<in> set xs \<Longrightarrow> sortCompare cmp x y \<le> 0 \<Longrightarrow> R x y"
    and "\<And>x y. x \<in> set xs \<Longrightarrow> y \<in> set xs \<Longrightarrow> \<not> sortCompare cmp x y \<le> 0 \<Longrightarrow> R y x"
    and "\<And>x y z. x \<in> set xs \<Longrightarrow> y \<in> set xs \<Longrightarrow> z \<in> set xs \<Longrightarrow> R x y \<Longrightarrow> R y z \<Longrightarrow> R x z"
  shows "sorted_wrt R (sortBy cmp xs)"
  using assms
proof (induction xs)
  case Nil
  show ?case by (simp add: sortBy_def)
next
  case (Cons x xs)
  have IH: "sorted_wrt R (sortBy cmp xs)"
  proof (rule Cons.IH)
    fix a b assume "a \<in> set xs" "b \<in> set xs" "sortCompare cmp a b \<le> 0"
    then show "R a b" by (intro Cons.prems(1)) simp_all
  next
    fix a b assume "a \<in> set xs" "b \<in> set xs" "\<not> sortCompare cmp a b \<le> 0"
    then show "R b a" by (intro Cons.prems(2)) simp_all
  next
    fix a b c assume "a \<in> set xs" "b \<in> set xs" "c \<in> set xs" "R a b" "R b c"
    then show "R a c" by (intro Cons.prems(3) [of a b c]) simp_all
  qed
  have "sorted_wrt R (insertBy cmp x (sortBy cmp xs))"
  proof (rule sorted_wrt_insertBy [OF IH])
    fix y assume "y \<in> set (sortBy cmp xs)" "sortCompare cmp x y \<le> 0"
    then show "R x y" by (intro Cons.prems(1)) (simp_all add: set_sortBy)
  next
    fix y assume "y \<in> set (sortBy cmp xs)" "\<not> sortCompare cmp x y \<le> 0"
    then show "R y x" by (intro Cons.prems(2)) (simp_all add: set_sortBy)
  next
    fix y z assume "y \<in> set (sortBy cmp xs)" "z \<in> set (sortBy cmp xs)" "R x y" "R y z"
    then show "R x z" by (intro Cons.prems(3) [of x y z]) (simp_all add: set_sortBy)
  qed
  then show ?case by (simp add: sortBy_def)
qed

section \<open>Evaluation of the examples\<close>

lemmas example_defs =
  exampleDate_def exampleNow_def exampleAdmin_def exampleStudent_def requestR1_def requestR2_def
  requestR3_def requestR4_def requestR9_def approvedRequest_def exampleFeed_def exampleList_def

lemmas activity_defs =
  loadActivities_def slice0_def filteredActivities_def matchesFilter_def activityItems_def
  sortBy_def sortCompare_def activityCompare_def activityItemsOf_def requestItem_def
  approvalItem_def checkoutItem_def returnItem_def rejectionItem_def numToString_def
  digitsOf.simps

lemmas notification_defs =
  loadNotifications_def userNotifications_def adminNotifications_def studentNotifications_def
  studentNotificationsOf_def daysDiffOf_def isOverdue_def isRecentCheckout_def
  isRecentReturn_def notificationCompare_def sortBy_def sortCompare_def pendingNotification_def
  overdueNotification_def checkoutNotification_def returnNotification_def
  approvedNotification_def rejectedNotification_def reminderNotification_def numToString_def
  digitsOf.simps

section \<open>The order of notifications\<close>

lemma inOrder_compare:
  assumes "getTime D (n_timestamp x) \<noteq> None" "getTime D (n_timestamp y) \<noteq> None"
  shows "sortCompare (notificationCompare D) x y \<le> 0 \<longleftrightarrow> inOrder D x y"
proof -
  from assms obtain a b where "getTime D (n_timestamp x) = Some a" "getTime D (n_timestamp y) = Some b"
    by blast
  then show ?thesis
    unfolding sortCompare_def notificationCompare_def inOrder_def by (simp; arith)
qed

lemma inOrder_total:
  assumes "getTime D (n_timestamp x) \<noteq> None" "getTime D (n_timestamp y) \<noteq> None"
  shows "inOrder D x y \<or> inOrder D y x"
proof -
  from assms obtain a b where "getTime D (n_timestamp x) = Some a" "getTime D (n_timestamp y) = Some b"
    by blast
  then show ?thesis
    unfolding inOrder_def by (simp; arith)
qed

lemma numGeq_trans: "numGeq a b \<Longrightarrow> numGeq b c \<Longrightarrow> numGeq a c"
  by (cases a; cases b; cases c) simp_all

lemma inOrder_trans:
  assumes "inOrder D x y" "inOrder D y z"
  shows "inOrder D x z"
  using assms numGeq_trans [of "getTime D (n_timestamp x)" "getTime D (n_timestamp y)" "getTime D (n_timestamp z)"]
  unfolding inOrder_def by (elim disjE conjE) simp_all

section \<open>Caps and filters\<close>

lemma length_slice0: "0 \<le> e \<Longrightarrow> int (length (slice0 e xs)) \<le> e"
  by (simp add: slice0_def)

lemma set_slice0: "set (slice0 e xs) \<subseteq> set xs"
  by (auto simp: slice0_def dest: in_set_takeD)

lemma length_loadNotifications:
  "length prev \<le> 20 \<Longrightarrow> length (loadNotifications D cu requests now prev) \<le> 20"
  by (cases cu) (simp_all add: loadNotifications_def)

lemma length_ticks: "length st \<le> 20 \<Longrightarrow> length (ticks D cu snaps st) \<le> 20"
  by (induction snaps arbitrary: st) (auto simp: length_loadNotifications)

text \<open>
  C6. The list \<open>loadActivities\<close> stores is never longer than \<open>maxItems\<close>, for a cap
  \<open>maxItems\<close> that is not negative, and the list \<open>loadNotifications\<close> stores is never
  longer than 20, whatever the requests; each is a prefix of the ordered (and, for
  activities, filtered) list, so the cap is applied last. The notification list is
  within the cap after any number of ticks from the initial state, with or without a
  current user.
\<close>

theorem truncation_caps:
  "0 \<le> maxItems \<Longrightarrow>
   int (length (activities (loadActivities D requests flt maxItems st))) \<le> maxItems \<and>
   activities (loadActivities D requests flt maxItems st) =
     take (nat maxItems) (filteredActivities flt (activityItems D requests)) \<and>
   length (loadNotifications D (Some u) requests now prev) \<le> 20 \<and>
   loadNotifications D (Some u) requests now prev = take 20 (userNotifications D u requests now) \<and>
   length (ticks D currentUser snaps initialNotifications) \<le> 20"
proof -
  assume "0 \<le> maxItems"
  then have "int (length (activities (loadActivities D requests flt maxItems st))) \<le> maxItems"
    by (simp add: loadActivities_def length_slice0)
  moreover have "activities (loadActivities D requests flt maxItems st) =
     take (nat maxItems) (filteredActivities flt (activityItems D requests))"
    using \<open>0 \<le> maxItems\<close> by (simp add: loadActivities_def slice0_def)
  moreover have "length (ticks D currentUser snaps initialNotifications) \<le> 20"
    by (rule length_ticks) (simp add: initialNotifications_def)
  ultimately show ?thesis
    by (simp add: loadNotifications_def)
qed

theorem truncation_caps_witness:
  "(0::int) \<le> 2 \<and>
   int (length (activities (loadActivities exampleDate [requestR1, requestR2] F_all 2 exampleFeed))) \<le> 2 \<and>
   map a_id (activities (loadActivities exampleDate [requestR1, requestR2] F_all 2 exampleFeed)) =
     [''approval_r2'', ''checkout_r2'']"
proof -
  have h: "(0::int) \<le> 2" by simp
  have "map a_id (activities (loadActivities exampleDate [requestR1, requestR2] F_all 2 exampleFeed)) =
     [''approval_r2'', ''checkout_r2'']"
    by (simp add: activity_defs example_defs)
  with truncation_caps [OF h, of exampleDate "[requestR1, requestR2]" F_all exampleFeed] h
  show ?thesis by blast
qed

text \<open>
  The body of \<open>loadActivities\<close>, for each filter it may read: with \<open>requests\<close> the cap
  applied to the request items of the ordered feed, with \<open>approvals\<close> to its approval and
  checkout items, with \<open>returns\<close> to its return items, with \<open>all\<close> to the whole feed.
\<close>

lemma loadActivities_filter_body:
  "activities (loadActivities D requests F_requests maxItems st) =
     slice0 maxItems (filter (\<lambda>a. a_type a = A_request) (activityItems D requests)) \<and>
   activities (loadActivities D requests F_approvals maxItems st) =
     slice0 maxItems (filter (\<lambda>a. a_type a = A_approval \<or> a_type a = A_checkout)
       (activityItems D requests)) \<and>
   activities (loadActivities D requests F_returns maxItems st) =
     slice0 maxItems (filter (\<lambda>a. a_type a = A_return) (activityItems D requests)) \<and>
   activities (loadActivities D requests F_all maxItems st) =
     slice0 maxItems (activityItems D requests) \<and>
   (\<forall>a \<in> set (activities (loadActivities D requests F_requests maxItems st)).
      a_type a = A_request) \<and>
   (\<forall>a \<in> set (activities (loadActivities D requests F_approvals maxItems st)).
      a_type a = A_approval \<or> a_type a = A_checkout) \<and>
   (\<forall>a \<in> set (activities (loadActivities D requests F_returns maxItems st)).
      a_type a = A_return)"
proof -
  have eqs:
    "filteredActivities F_requests xs = filter (\<lambda>a. a_type a = A_request) xs"
    "filteredActivities F_approvals xs = filter (\<lambda>a. a_type a = A_approval \<or> a_type a = A_checkout) xs"
    "filteredActivities F_returns xs = filter (\<lambda>a. a_type a = A_return) xs"
    "filteredActivities F_all xs = xs" for xs
    by (simp_all add: filteredActivities_def matchesFilter_def [abs_def])
  have sub: "a \<in> set (slice0 maxItems (filter P xs)) \<Longrightarrow> P a" for a P and xs :: "ActivityItem list"
    using set_slice0 [of maxItems "filter P xs"] by auto
  show ?thesis
    by (auto simp: loadActivities_def eqs dest: sub)
qed

lemma feedStep_Load:
  "activities (feed (feedStep D maxItems c (Load requests))) =
     slice0 maxItems (activityItems D requests) \<and>
   selectedFilter (feedStep D maxItems c (Load requests)) = selectedFilter c"
  by (simp add: loadActivities_def filteredActivities_def initialFilter_def)

text \<open>
  C5. The component does not filter by the selected filter: every load runs with the
  filter of the first render. Mounted on a pending, an approved and a returned request,
  with the filter \<open>requests\<close> selected before the next load, the stored list holds the
  items of every kind, approval, checkout and return items among them.
\<close>

theorem selected_filter_ignored:
  "selectedFilter (feedRun exampleDate 10
     [Load [requestR1, requestR2, requestR4], SetFilter F_requests,
      Load [requestR1, requestR2, requestR4]]) = F_requests \<and>
   map a_type (activities (feed (feedRun exampleDate 10
     [Load [requestR1, requestR2, requestR4], SetFilter F_requests,
      Load [requestR1, requestR2, requestR4]]))) =
     [A_return, A_approval, A_checkout, A_request, A_request, A_request] \<and>
   map a_id (activities (feed (feedRun exampleDate 10
     [Load [requestR1, requestR2, requestR4], SetFilter F_requests,
      Load [requestR1, requestR2, requestR4]]))) =
     [''return_r4'', ''approval_r2'', ''checkout_r2'', ''request_r1'', ''request_r2'',
      ''request_r4'']"
  by (simp add: feedRun_def initialFeed_def initialFilter_def activity_defs example_defs)

section \<open>Read state\<close>

lemma ticks_no_user: "ticks D None snaps st = st"
  by (induction snaps arbitrary: st) (auto simp: loadNotifications_def)

text \<open>
  C7. Without a current user \<open>loadNotifications\<close> leaves the state alone; from the
  initial empty state the notification list is empty after one run and after any number
  of ticks, for every request collection and every clock value.
\<close>

theorem absent_user_no_notifications:
  "loadNotifications D None requests now initialNotifications = [] \<and>
   ticks D None snaps initialNotifications = []"
  by (simp add: ticks_no_user) (simp add: loadNotifications_def initialNotifications_def)

text \<open>
  C9. \<open>markAsRead\<close> keeps the length of the list and turns the notification at every
  position whose identifier is the given one into the same notification with
  \<open>read = true\<close>; when no notification has that identifier the list is returned as it
  is. \<open>markAllAsRead\<close> sets \<open>read = true\<close> on every notification. Both are total
  functions of the list: there is no failing branch.
\<close>

theorem markAsRead_semantics:
  "length (markAsRead i ns) = length ns \<and>
   (\<forall>k < length ns. n_id (ns ! k) = i \<longrightarrow> markAsRead i ns ! k = (ns ! k)\<lparr>n_read := True\<rparr>) \<and>
   (i \<notin> n_id ` set ns \<longrightarrow> markAsRead i ns = ns) \<and>
   markAllAsRead ns = map (\<lambda>n. n\<lparr>n_read := True\<rparr>) ns \<and>
   (\<forall>n \<in> set (markAllAsRead ns). n_read n)"
proof -
  have "i \<notin> n_id ` set ns \<Longrightarrow> markAsRead i ns = ns"
    unfolding markAsRead_def by (induction ns) auto
  then show ?thesis
    by (auto simp: markAsRead_def markAllAsRead_def)
qed

theorem markAsRead_semantics_witness:
  "n_id (exampleList ! 0) = ''pending_r1'' \<and>
   markAsRead ''pending_r1'' exampleList ! 0 = (exampleList ! 0)\<lparr>n_read := True\<rparr> \<and>
   ''pending_r9'' \<notin> n_id ` set exampleList \<and>
   markAsRead ''pending_r9'' exampleList = exampleList \<and>
   n_read (markAllAsRead exampleList ! 1)"
proof -
  have len: "0 < length exampleList"
    by (simp add: exampleList_def)
  have a: "n_id (exampleList ! 0) = ''pending_r1''"
    by (simp add: exampleList_def pendingNotification_def requestR1_def)
  have b: "''pending_r9'' \<notin> n_id ` set exampleList"
    by (simp add: exampleList_def pendingNotification_def requestR1_def requestR3_def)
  have c: "markAllAsRead exampleList ! 1 \<in> set (markAllAsRead exampleList)"
    by (simp add: exampleList_def markAllAsRead_def)
  from markAsRead_semantics [of "''pending_r1''" exampleList] len a
  have 1: "markAsRead ''pending_r1'' exampleList ! 0 = (exampleList ! 0)\<lparr>n_read := True\<rparr>"
    by blast
  from markAsRead_semantics [of "''pending_r9''" exampleList] b
  have 2: "markAsRead ''pending_r9'' exampleList = exampleList"
    by blast
  from markAsRead_semantics [of "''pending_r9''" exampleList] c
  have 3: "n_read (markAllAsRead exampleList ! 1)"
    by blast
  from a b 1 2 3 show ?thesis by blast
qed

text \<open>
  C10. \<open>markAsRead\<close> and \<open>markAllAsRead\<close> leave the list of the other fields
  (identifier, kind, title, message, timestamp, request identifier, priority) as it
  was, position by position, so also the length and the order of the list; and
  \<open>markAsRead\<close> leaves every notification with another identifier as it was, its
  \<open>read\<close> flag included.
\<close>

theorem read_ops_frame:
  "map otherFields (markAsRead i ns) = map otherFields ns \<and>
   map otherFields (markAllAsRead ns) = map otherFields ns \<and>
   (\<forall>k < length ns. n_id (ns ! k) \<noteq> i \<longrightarrow> markAsRead i ns ! k = ns ! k)"
  by (auto simp: markAsRead_def markAllAsRead_def otherFields_def)

theorem read_ops_frame_witness:
  "map otherFields (markAsRead ''pending_r1'' exampleList) = map otherFields exampleList \<and>
   map otherFields (markAllAsRead exampleList) = map otherFields exampleList \<and>
   1 < length exampleList \<and> n_id (exampleList ! 1) \<noteq> ''pending_r1'' \<and>
   markAsRead ''pending_r1'' exampleList ! 1 = exampleList ! 1"
proof -
  have a: "1 < length exampleList" by (simp add: exampleList_def)
  have b: "n_id (exampleList ! 1) \<noteq> ''pending_r1''"
    by (simp add: exampleList_def pendingNotification_def requestR3_def)
  from read_ops_frame [of "''pending_r1''" exampleList] a b show ?thesis by blast
qed

text \<open>
  C8. A run of \<open>loadActivities\<close> gives a state that does not depend on the state
  before, and a run of \<open>loadNotifications\<close> with a current user a list that does not
  depend on the list before (nor on what was marked read in it); so a second run on the
  same inputs and the same clock value gives the same result as the first, for every
  current user, present or absent.
\<close>

theorem recomputation_idempotent:
  "loadActivities D requests flt maxItems st = loadActivities D requests flt maxItems st' \<and>
   loadActivities D requests flt maxItems (loadActivities D requests flt maxItems st) =
     loadActivities D requests flt maxItems st \<and>
   loadNotifications D (Some u) requests now prev = loadNotifications D (Some u) requests now prev' \<and>
   loadNotifications D currentUser requests now (loadNotifications D currentUser requests now prev) =
     loadNotifications D currentUser requests now prev \<and>
   loadNotifications D (Some u) requests now (markAsRead i (loadNotifications D (Some u) requests now prev)) =
     loadNotifications D (Some u) requests now prev"
  by (cases st; cases st'; cases currentUser) (simp_all add: loadActivities_def loadNotifications_def)

section \<open>Notification order\<close>

lemma sorted_userNotifications:
  assumes "\<forall>n \<in> set (userNotifications D u requests now). getTime D (n_timestamp n) \<noteq> None"
  shows "sorted_wrt (inOrder D) (userNotifications D u requests now)"
proof -
  let ?xs = "if role u = Admin then adminNotifications D now requests
             else studentNotifications D now u requests"
  have valid: "getTime D (n_timestamp n) \<noteq> None" if "n \<in> set ?xs" for n
    using assms that unfolding userNotifications_def set_sortBy by blast
  have "sorted_wrt (inOrder D) (sortBy (notificationCompare D) ?xs)"
  proof (rule sorted_wrt_sortBy)
    fix x y assume "x \<in> set ?xs" "y \<in> set ?xs" "sortCompare (notificationCompare D) x y \<le> 0"
    then show "inOrder D x y" using inOrder_compare [of D x y] valid by blast
  next
    fix x y assume "x \<in> set ?xs" "y \<in> set ?xs" "\<not> sortCompare (notificationCompare D) x y \<le> 0"
    then show "inOrder D y x"
      using inOrder_compare [of D x y] inOrder_total [of D x y] valid by blast
  next
    fix x y z assume "inOrder D x y" "inOrder D y z"
    then show "inOrder D x z" by (rule inOrder_trans)
  qed
  then show ?thesis by (simp add: userNotifications_def)
qed

text \<open>
  C4, as amended. When the timestamp of every synthesized notification is a valid date,
  any two neighbours \<open>x\<close>, \<open>y\<close> of the stored list are in order: the priority rank of
  \<open>x\<close> is higher, or the ranks are equal and the timestamp of \<open>x\<close> is not earlier than
  that of \<open>y\<close>.
\<close>

theorem notification_order:
  assumes "\<forall>n \<in> set (userNotifications D u requests now). getTime D (n_timestamp n) \<noteq> None"
  shows "\<forall>i. Suc i < length (loadNotifications D (Some u) requests now prev) \<longrightarrow>
           inOrder D (loadNotifications D (Some u) requests now prev ! i)
                     (loadNotifications D (Some u) requests now prev ! Suc i)"
proof -
  have "sorted_wrt (inOrder D) (take 20 (userNotifications D u requests now))"
    using sorted_userNotifications [OF assms] by (rule sorted_wrt_take)
  then have "sorted_wrt (inOrder D) (loadNotifications D (Some u) requests now prev)"
    by (simp add: loadNotifications_def)
  then show ?thesis
    by (simp add: sorted_wrt_iff_nth_less)
qed

theorem notification_order_witness:
  "map n_id (loadNotifications exampleDate (Some exampleAdmin) [requestR1, requestR2, requestR4] exampleNow []) =
     [''overdue_r2'', ''pending_r1'', ''return_r4''] \<and>
   inOrder exampleDate
     (loadNotifications exampleDate (Some exampleAdmin) [requestR1, requestR2, requestR4] exampleNow [] ! 0)
     (loadNotifications exampleDate (Some exampleAdmin) [requestR1, requestR2, requestR4] exampleNow [] ! Suc 0) \<and>
   inOrder exampleDate
     (loadNotifications exampleDate (Some exampleAdmin) [requestR1, requestR2, requestR4] exampleNow [] ! Suc 0)
     (loadNotifications exampleDate (Some exampleAdmin) [requestR1, requestR2, requestR4] exampleNow [] ! Suc (Suc 0))"
proof -
  let ?rs = "[requestR1, requestR2, requestR4]"
  have ids: "map n_id (loadNotifications exampleDate (Some exampleAdmin) ?rs exampleNow []) =
     [''overdue_r2'', ''pending_r1'', ''return_r4'']"
    by (simp add: notification_defs example_defs)
  then have len: "length (loadNotifications exampleDate (Some exampleAdmin) ?rs exampleNow []) = 3"
    by (metis length_map length_Cons list.size(3) numeral_3_eq_3)
  have valid: "\<forall>n \<in> set (userNotifications exampleDate exampleAdmin ?rs exampleNow).
     getTime exampleDate (n_timestamp n) \<noteq> None"
    by (simp add: notification_defs example_defs)
  from notification_order [OF valid, of "[]"] len
  have "inOrder exampleDate
     (loadNotifications exampleDate (Some exampleAdmin) ?rs exampleNow [] ! 0)
     (loadNotifications exampleDate (Some exampleAdmin) ?rs exampleNow [] ! Suc 0)"
   and "inOrder exampleDate
     (loadNotifications exampleDate (Some exampleAdmin) ?rs exampleNow [] ! Suc 0)
     (loadNotifications exampleDate (Some exampleAdmin) ?rs exampleNow [] ! Suc (Suc 0))"
    by simp_all
  with ids show ?thesis by blast
qed

text \<open>
  Two pending requests, one with a request date that is not a date: both notifications
  have rank 3, and no comparison with an invalid timestamp holds, so the two stored
  neighbours are in order in neither direction.
\<close>

theorem notification_order_counterexample:
  "map n_id (loadNotifications exampleDate (Some exampleAdmin) [requestR1, requestR3] exampleNow []) =
     [''pending_r1'', ''pending_r3''] \<and>
   \<not> inOrder exampleDate
       (loadNotifications exampleDate (Some exampleAdmin) [requestR1, requestR3] exampleNow [] ! 0)
       (loadNotifications exampleDate (Some exampleAdmin) [requestR1, requestR3] exampleNow [] ! 1) \<and>
   \<not> inOrder exampleDate
       (loadNotifications exampleDate (Some exampleAdmin) [requestR1, requestR3] exampleNow [] ! 1)
       (loadNotifications exampleDate (Some exampleAdmin) [requestR1, requestR3] exampleNow [] ! 0)"
  by (simp add: notification_defs example_defs inOrder_def)

section \<open>One request among distinct identifiers\<close>

lemma filter_concat_others:
  assumes "\<And>r'. r' \<in> set rs \<Longrightarrow> filter P (f r') = []"
  shows "filter P (concat (map f rs)) = []"
  using assms by (induction rs) simp_all

lemma filter_concat_one:
  assumes "distinct (map rid rs)" and "r \<in> set rs"
    and others: "\<And>r'. rid r' \<noteq> rid r \<Longrightarrow> filter P (f r') = []"
  shows "filter P (concat (map f rs)) = filter P (f r)"
  using assms(1,2)
proof (induction rs)
  case Nil
  then show ?case by simp
next
  case (Cons x xs)
  show ?case
  proof (cases "x = r")
    case True
    have "rid r \<notin> rid ` set xs"
      using Cons.prems(1) True by simp
    then have "rid r' \<noteq> rid r" if "r' \<in> set xs" for r'
      using that by (metis imageI)
    then have "filter P (concat (map f xs)) = []"
      by (intro filter_concat_others others)
    with True show ?thesis by simp
  next
    case False
    with Cons.prems have in_xs: "r \<in> set xs" and "rid x \<noteq> rid r"
      by auto
    then have "filter P (f x) = []" by (intro others)
    moreover have "filter P (concat (map f xs)) = filter P (f r)"
      using Cons.prems(1) in_xs by (intro Cons.IH) simp_all
    ultimately show ?thesis by simp
  qed
qed

lemma filter_rid_one:
  assumes "distinct (map rid rs)" and "r \<in> set rs"
  shows "filter (\<lambda>r'. rid r' = rid r) rs = [r]"
  using filter_concat_one [OF assms, of "\<lambda>r'. rid r' = rid r" "\<lambda>x. [x]"] by simp

lemma filter_sortBy_single:
  assumes "filter P xs = [x]"
  shows "filter P (sortBy cmp xs) = [x]"
proof -
  have "mset (filter P (sortBy cmp xs)) = {#x#}"
    using assms by (simp add: mset_filter_sortBy del: mset_filter)
  then show ?thesis by (cases "filter P (sortBy cmp xs)") (auto split: if_splits)
qed

lemma filter_sortBy_empty:
  assumes "filter P xs = []"
  shows "filter P (sortBy cmp xs) = []"
  using assms length_filter_sortBy [of P cmp xs] by simp

section \<open>The overdue reminder of the admin view\<close>

lemma reminders_adminNotifications:
  "filter (isReminderFor i) (adminNotifications D now rs) =
     map (overdueNotification D) (filter (\<lambda>r'. rid r' = i) (filter (isOverdue D now) rs))"
  by (simp add: adminNotifications_def filter_map comp_def isReminderFor_def
      pendingNotification_def overdueNotification_def checkoutNotification_def
      returnNotification_def)

lemma reminders_admin_request:
  assumes "r \<in> set requests" "distinct (map rid requests)" "status r = Approved"
  shows "filter (isReminderFor (rid r)) (adminNotifications D now requests) =
           (if numLess (getTime D (dueDate r)) (Some now) then [overdueNotification D r] else [])"
proof -
  have "filter (\<lambda>r'. rid r' = rid r) (filter (isOverdue D now) requests) =
        filter (isOverdue D now) (filter (\<lambda>r'. rid r' = rid r) requests)"
    by (simp add: conj_commute)
  also have "\<dots> = filter (isOverdue D now) [r]"
    using filter_rid_one [OF assms(2,1)] by simp
  also have "\<dots> = (if numLess (getTime D (dueDate r)) (Some now) then [r] else [])"
    using assms(3) by (simp add: isOverdue_def)
  finally show ?thesis
    by (simp add: reminders_adminNotifications)
qed

text \<open>
  C2, as amended. For an admin and a request with status approved among requests with
  distinct identifiers: the ordered list of notifications holds exactly one reminder for
  the request, of priority high, when the due date is a valid instant strictly before
  now, compared to the millisecond, and none otherwise; and so does the stored list
  when the ordered list has at most 20 notifications, so that the cap drops none.
\<close>

theorem admin_overdue_reminder:
  assumes "role u = Admin" and "r \<in> set requests" and "distinct (map rid requests)"
    and "status r = Approved"
  shows "filter (isReminderFor (rid r)) (userNotifications D u requests now) =
           (if numLess (getTime D (dueDate r)) (Some now) then [overdueNotification D r] else []) \<and>
         (length (userNotifications D u requests now) \<le> 20 \<longrightarrow>
            filter (isReminderFor (rid r)) (loadNotifications D (Some u) requests now prev) =
              (if numLess (getTime D (dueDate r)) (Some now) then [overdueNotification D r]
               else [])) \<and>
         n_type (overdueNotification D r) = N_reminder \<and>
         n_priority (overdueNotification D r) = High \<and>
         n_requestId (overdueNotification D r) = Some (rid r)"
proof -
  let ?P = "isReminderFor (rid r)"
  have sorted: "userNotifications D u requests now =
             sortBy (notificationCompare D) (adminNotifications D now requests)"
    using assms(1) by (simp add: userNotifications_def)
  have full: "filter ?P (userNotifications D u requests now) =
        (if numLess (getTime D (dueDate r)) (Some now) then [overdueNotification D r] else [])"
  proof (cases "numLess (getTime D (dueDate r)) (Some now)")
    case True
    then have "filter ?P (adminNotifications D now requests) = [overdueNotification D r]"
      using reminders_admin_request [OF assms(2,3,4)] by simp
    then show ?thesis using True by (simp add: sorted filter_sortBy_single)
  next
    case False
    then have "filter ?P (adminNotifications D now requests) = []"
      using reminders_admin_request [OF assms(2,3,4)] by simp
    then show ?thesis using False by (simp add: sorted filter_sortBy_empty)
  qed
  have "loadNotifications D (Some u) requests now prev = userNotifications D u requests now"
    if "length (userNotifications D u requests now) \<le> 20"
    using that by (simp add: loadNotifications_def)
  with full show ?thesis
    by (simp add: overdueNotification_def)
qed

theorem admin_overdue_reminder_witness:
  "role exampleAdmin = Admin \<and> requestR2 \<in> set [requestR1, requestR2] \<and>
   distinct (map rid [requestR1, requestR2]) \<and> status requestR2 = Approved \<and>
   length (userNotifications exampleDate exampleAdmin [requestR1, requestR2] exampleNow) \<le> 20 \<and>
   numLess (getTime exampleDate (dueDate requestR2)) (Some exampleNow) \<and>
   filter (isReminderFor (rid requestR2))
     (loadNotifications exampleDate (Some exampleAdmin) [requestR1, requestR2] exampleNow []) =
     [overdueNotification exampleDate requestR2]"
proof -
  have h1: "role exampleAdmin = Admin" by (simp add: exampleAdmin_def)
  have h2: "requestR2 \<in> set [requestR1, requestR2]" by simp
  have h3: "distinct (map rid [requestR1, requestR2])" by (simp add: requestR1_def requestR2_def)
  have h4: "status requestR2 = Approved" by (simp add: requestR2_def)
  have h5: "length (userNotifications exampleDate exampleAdmin [requestR1, requestR2] exampleNow) \<le> 20"
    using h1 by (simp add: userNotifications_def adminNotifications_def length_sortBy)
  have h6: "numLess (getTime exampleDate (dueDate requestR2)) (Some exampleNow)"
    by (simp add: example_defs)
  from admin_overdue_reminder [OF h1 h2 h3 h4, of exampleDate exampleNow "[]"] h1 h2 h3 h4 h5 h6
  show ?thesis by simp
qed

text \<open>
  A request due at 10:00 of the day whose noon is now: the whole-day difference is 0,
  so the request is not overdue at day granularity, and the admin list holds its
  overdue reminder.
\<close>

theorem admin_overdue_counterexample:
  "status requestR2 = Approved \<and>
   map n_id (filter (isReminderFor ''r2'')
     (loadNotifications exampleDate (Some exampleAdmin) [requestR2] exampleNow [])) = [''overdue_r2''] \<and>
   daysDiffOf exampleDate exampleNow requestR2 = Some 0 \<and>
   \<not> overdueByWholeDays exampleDate exampleNow requestR2"
  by (simp add: notification_defs example_defs isReminderFor_def overdueByWholeDays_def)

section \<open>Recomputation and read state\<close>

lemma admin_unread: "n \<in> set (adminNotifications D now requests) \<Longrightarrow> \<not> n_read n"
  by (auto simp: adminNotifications_def pendingNotification_def overdueNotification_def
      checkoutNotification_def returnNotification_def)

lemma in_optional: "n \<in> set (if b then [x] else []) \<Longrightarrow> n = x"
  by (cases b) simp_all

lemma in_reminder:
  "n \<in> set (case x of None \<Rightarrow> [] | Some d \<Rightarrow> if c d then [f d] else []) \<Longrightarrow> \<exists>d. n = f d"
  by (cases x) (auto dest: in_optional)

lemma in_guarded: "n \<in> set (if b then xs else []) \<Longrightarrow> n \<in> set xs"
  by (cases b) simp_all

lemma studentOf_shape:
  assumes "n \<in> set (studentNotificationsOf D now r)"
  shows "n = approvedNotification r \<or> n = rejectedNotification r \<or>
      (\<exists>d. n = reminderNotification D now r d)"
proof -
  from assms consider
    "n \<in> set (if status r = Approved \<and> truthy (approvedDate r) then [approvedNotification r] else [])"
    | "n \<in> set (if status r = Rejected then [rejectedNotification r] else [])"
    | "n \<in> set (if status r = Approved then
        (case daysDiffOf D now r of
           None \<Rightarrow> []
         | Some daysDiff \<Rightarrow>
             if daysDiff \<le> 2 \<and> daysDiff \<ge> 0 then [reminderNotification D now r daysDiff] else [])
      else [])"
    unfolding studentNotificationsOf_def set_append Un_iff by blast
  then show ?thesis
  proof cases
    case 1
    then show ?thesis by (blast dest: in_optional)
  next
    case 2
    then show ?thesis by (blast dest: in_optional)
  next
    case 3
    then have "n \<in> set (case daysDiffOf D now r of
           None \<Rightarrow> []
         | Some daysDiff \<Rightarrow>
             if daysDiff \<le> 2 \<and> daysDiff \<ge> 0 then [reminderNotification D now r daysDiff] else [])"
      by (rule in_guarded)
    then have "\<exists>d. n = reminderNotification D now r d"
      by (rule in_reminder)
    then show ?thesis by blast
  qed
qed

lemma studentOf_unread:
  assumes "n \<in> set (studentNotificationsOf D now r)"
  shows "\<not> n_read n"
  using studentOf_shape [OF assms]
  by (auto simp: approvedNotification_def rejectedNotification_def reminderNotification_def)

lemma student_unread: "n \<in> set (studentNotifications D now u requests) \<Longrightarrow> \<not> n_read n"
  by (auto simp: studentNotifications_def dest: studentOf_unread)

text \<open>
  C1, as amended. A recomputation with a current user stores the fresh synthesis: every
  notification of the stored list has \<open>read = false\<close>, whatever the list before held
  and whatever was read in it, and every stored notification is one of the new
  synthesis, so an identifier absent from it does not appear.
\<close>

theorem recomputation_resets_read:
  "(\<forall>n \<in> set (loadNotifications D (Some u) requests now prev). \<not> n_read n) \<and>
   set (loadNotifications D (Some u) requests now prev) \<subseteq>
     set (if role u = Admin then adminNotifications D now requests
          else studentNotifications D now u requests)"
proof -
  have sub: "set (loadNotifications D (Some u) requests now prev) \<subseteq>
     set (if role u = Admin then adminNotifications D now requests
          else studentNotifications D now u requests)"
    unfolding loadNotifications_def userNotifications_def
    using set_take_subset [of 20 "sortBy (notificationCompare D)
       (if role u = Admin then adminNotifications D now requests
        else studentNotifications D now u requests)"]
    by (simp add: set_sortBy)
  have "\<not> n_read n" if "n \<in> set (loadNotifications D (Some u) requests now prev)" for n
    using sub that admin_unread [of n D now requests] student_unread [of n D now u requests]
    by (cases "role u = Admin") auto
  with sub show ?thesis by blast
qed

theorem recomputation_resets_read_witness:
  "loadNotifications exampleDate (Some exampleAdmin) [requestR1] exampleNow
     (markAsRead ''pending_r1'' [pendingNotification requestR1]) = [pendingNotification requestR1] \<and>
   \<not> n_read (pendingNotification requestR1)"
proof -
  have eq: "loadNotifications exampleDate (Some exampleAdmin) [requestR1] exampleNow
     (markAsRead ''pending_r1'' [pendingNotification requestR1]) = [pendingNotification requestR1]"
    by (simp add: loadNotifications_def userNotifications_def adminNotifications_def sortBy_def
        isOverdue_def isRecentCheckout_def isRecentReturn_def example_defs)
  from recomputation_resets_read [of exampleDate exampleAdmin "[requestR1]" exampleNow
      "markAsRead ''pending_r1'' [pendingNotification requestR1]"] eq
  show ?thesis by simp
qed

text \<open>
  One pending request: the first run stores \<open>pending_r1\<close>, \<open>markAsRead\<close> marks it read,
  and the next run on the same requests stores \<open>pending_r1\<close> with \<open>read = false\<close>.
\<close>

theorem read_state_counterexample:
  "map n_id (markAsRead ''pending_r1''
     (loadNotifications exampleDate (Some exampleAdmin) [requestR1] exampleNow [])) = [''pending_r1''] \<and>
   map n_read (markAsRead ''pending_r1''
     (loadNotifications exampleDate (Some exampleAdmin) [requestR1] exampleNow [])) = [True] \<and>
   map n_id (loadNotifications exampleDate (Some exampleAdmin) [requestR1] exampleNow
     (markAsRead ''pending_r1''
       (loadNotifications exampleDate (Some exampleAdmin) [requestR1] exampleNow []))) = [''pending_r1''] \<and>
   map n_read (loadNotifications exampleDate (Some exampleAdmin) [requestR1] exampleNow
     (markAsRead ''pending_r1''
       (loadNotifications exampleDate (Some exampleAdmin) [requestR1] exampleNow []))) = [False]"
  by (simp add: notification_defs example_defs markAsRead_def)

section \<open>Stability of the sort\<close>








section \<open>The activities of an approved request\<close>















end
